theory Spec2Isabelle
  imports Complex_Main "HOL-Library.Char_ord" "HOL-Library.List_Lexorder"
begin

section \<open>JavaScript values used by the calendar\<close>

subsection \<open>Numbers\<close>

text \<open>
  The calendar only ever computes with whole numbers (minutes, milliseconds, day counts,
  week intervals), with \<open>NaN\<close>, which appears as soon as a time string has a field
  that is not numeric or is missing, and with the infinities, which a very long run of
  digits gives. A number is therefore a whole number that is a double, \<open>NaN\<close>,
  \<open>Infinity\<close> or \<open>-Infinity\<close>. Fractional values are outside the model, and the
  two zeros are one value: they compare equal and the code only compares.
\<close>

datatype jsnum = Num int | NaN | PosInf | NegInf

text \<open>
  The double nearest to a whole number. Up to \<open>2 ^ 53\<close> in size every whole number is a
  double. A larger one keeps its 53 leading bits, rounded to nearest with a tie going to
  the even neighbour, and becomes an infinity when the result reaches \<open>2 ^ 1024\<close>.
\<close>

function bit_length :: "int \<Rightarrow> nat" where
  "bit_length a = (if a \<le> 0 then 0 else Suc (bit_length (a div 2)))"
  by pat_completeness auto
termination
  by (relation "measure nat") auto

declare bit_length.simps [simp del]

definition double_of_int :: "int \<Rightarrow> jsnum" where
  "double_of_int n =
     (let a = \<bar>n\<bar> in
      if a \<le> 2 ^ 53 then Num n
      else
        (let ulp = 2 ^ (bit_length a - 53);
             q = a div ulp;
             r = a mod ulp;
             q' = (if 2 * r > ulp \<or> (2 * r = ulp \<and> odd q) then q + 1 else q);
             v = q' * ulp
         in if v \<ge> 2 ^ 1024 then (if n < 0 then NegInf else PosInf)
            else Num (sgn n * v)))"

text \<open>
  Sum and product are the exact results rounded to a double. An infinity absorbs every
  finite number; the sum of the two infinities and the product of an infinity with zero
  are \<open>NaN\<close>.
\<close>

fun js_sign :: "jsnum \<Rightarrow> int" where
  "js_sign (Num n) = sgn n"
| "js_sign PosInf = 1"
| "js_sign NegInf = - 1"
| "js_sign NaN = 0"

definition inf_of_sign :: "int \<Rightarrow> jsnum" where
  "inf_of_sign s = (if s = 0 then NaN else if s > 0 then PosInf else NegInf)"

fun js_add :: "jsnum \<Rightarrow> jsnum \<Rightarrow> jsnum" where
  "js_add (Num a) (Num b) = double_of_int (a + b)"
| "js_add NaN _ = NaN"
| "js_add _ NaN = NaN"
| "js_add PosInf NegInf = NaN"
| "js_add NegInf PosInf = NaN"
| "js_add PosInf _ = PosInf"
| "js_add _ PosInf = PosInf"
| "js_add NegInf _ = NegInf"
| "js_add _ NegInf = NegInf"

fun js_mul :: "jsnum \<Rightarrow> jsnum \<Rightarrow> jsnum" where
  "js_mul (Num a) (Num b) = double_of_int (a * b)"
| "js_mul NaN _ = NaN"
| "js_mul _ NaN = NaN"
| "js_mul x y = inf_of_sign (js_sign x * js_sign y)"

fun js_neg :: "jsnum \<Rightarrow> jsnum" where
  "js_neg (Num n) = Num (- n)"
| "js_neg NaN = NaN"
| "js_neg PosInf = NegInf"
| "js_neg NegInf = PosInf"

text \<open>Every comparison with \<open>NaN\<close> is false.\<close>

fun js_lt :: "jsnum \<Rightarrow> jsnum \<Rightarrow> bool" where
  "js_lt (Num a) (Num b) = (a < b)"
| "js_lt NaN _ = False"
| "js_lt _ NaN = False"
| "js_lt PosInf _ = False"
| "js_lt _ NegInf = False"
| "js_lt _ PosInf = True"
| "js_lt NegInf _ = True"

fun js_gt :: "jsnum \<Rightarrow> jsnum \<Rightarrow> bool" where
  "js_gt (Num a) (Num b) = (a > b)"
| "js_gt NaN _ = False"
| "js_gt _ NaN = False"
| "js_gt NegInf _ = False"
| "js_gt _ PosInf = False"
| "js_gt _ NegInf = True"
| "js_gt PosInf _ = True"

text \<open>Truthiness of a number: \<open>0\<close> and \<open>NaN\<close> are falsy.\<close>

fun truthy :: "jsnum \<Rightarrow> bool" where
  "truthy (Num n) = (n \<noteq> 0)"
| "truthy NaN = False"
| "truthy PosInf = True"
| "truthy NegInf = True"

text \<open>
  The remainder operator \<open>%\<close> with a whole number as dividend. It truncates: the
  result has the sign of the dividend. The remainder by zero is \<open>NaN\<close>, the remainder
  by an infinity is the dividend.
\<close>

fun js_rem :: "int \<Rightarrow> jsnum \<Rightarrow> jsnum" where
  "js_rem a (Num b) = (if b = 0 then NaN else Num (sgn a * (\<bar>a\<bar> mod \<bar>b\<bar>)))"
| "js_rem a NaN = NaN"
| "js_rem a PosInf = Num a"
| "js_rem a NegInf = Num a"

text \<open>
  \<open>Math.round(n / d)\<close>, \<open>Math.ceil(n / d)\<close> and \<open>Math.floor(n / d)\<close> for whole
  numbers \<open>n\<close> and \<open>d > 0\<close>, computed on the exact quotient. \<open>Math.round\<close>
  rounds a tie upwards, so it is \<open>floor (n / d + 1 / 2)\<close>. The code divides doubles;
  for two dates less than \<open>2 ^ 27\<close> days apart the rounded quotient lies on the same
  side of every tie and of every whole number as the exact one.
\<close>

definition Math_round_div :: "int \<Rightarrow> int \<Rightarrow> int" where
  "Math_round_div n d = (2 * n + d) div (2 * d)"

definition Math_ceil_div :: "int \<Rightarrow> int \<Rightarrow> int" where
  "Math_ceil_div n d = - ((- n) div d)"

definition Math_floor_div :: "int \<Rightarrow> int \<Rightarrow> int" where
  "Math_floor_div n d = n div d"

subsection \<open>Dates\<close>

text \<open>
  A \<open>Date\<close> is represented by the reading of the local clock: whole milliseconds
  since midnight of 1 January 1970 on that clock. The local getters, \<open>setDate\<close> and the
  constructor depend on the reading only. The time value that \<open>getTime\<close> returns is
  counted in UTC: it is the reading minus the offset of the zone from UTC at that reading,
  and the zone is a parameter of every function that calls \<open>getTime\<close>. Two dates are
  the same instant when they have the same reading; the hour that a clock change repeats
  or skips is not treated apart. Only valid dates are modelled.
\<close>

type_synonym jsdate = int

definition msPerDay :: int where
  "msPerDay = 1000 * 60 * 60 * 24"

definition Day :: "jsdate \<Rightarrow> int" where
  "Day t = t div msPerDay"

definition TimeWithinDay :: "jsdate \<Rightarrow> int" where
  "TimeWithinDay t = t mod msPerDay"

text \<open>
  A zone gives, for a reading of the local clock, the milliseconds by which that clock is
  ahead of UTC.
\<close>

type_synonym zone = "jsdate \<Rightarrow> int"

definition getTime :: "zone \<Rightarrow> jsdate \<Rightarrow> int" where
  "getTime z t = t - z t"

text \<open>
  The proleptic Gregorian calendar: the civil date (year, month \<open>1..12\<close>, day of month)
  of a day number counted from 1970-01-01, and back. Years are counted in 400-year eras
  that begin on 1 March, so that the leap day is the last day of a year.
\<close>

definition era_of_day :: "int \<Rightarrow> int" where
  "era_of_day z = (z + 719468) div 146097"

definition doe_of_day :: "int \<Rightarrow> int" where
  "doe_of_day z = (z + 719468) mod 146097"

definition yoe_of_doe :: "int \<Rightarrow> int" where
  "yoe_of_doe doe = (doe - doe div 1460 + doe div 36524 - doe div 146096) div 365"

definition doy_of_doe :: "int \<Rightarrow> int" where
  "doy_of_doe doe =
     (let yoe = yoe_of_doe doe in doe - (365 * yoe + yoe div 4 - yoe div 100))"

definition mp_of_doy :: "int \<Rightarrow> int" where
  "mp_of_doy doy = (5 * doy + 2) div 153"

definition dom_of_doy :: "int \<Rightarrow> int" where
  "dom_of_doy doy = doy - (153 * mp_of_doy doy + 2) div 5 + 1"

definition month_of_mp :: "int \<Rightarrow> int" where
  "month_of_mp mp = (if mp < 10 then mp + 3 else mp - 9)"

definition civil_from_days :: "int \<Rightarrow> int \<times> int \<times> int" where
  "civil_from_days z =
     (let doe = doe_of_day z;
          doy = doy_of_doe doe;
          m = month_of_mp (mp_of_doy doy)
      in (yoe_of_doe doe + era_of_day z * 400 + (if m \<le> 2 then 1 else 0), m, dom_of_doy doy))"

definition days_from_civil :: "int \<Rightarrow> int \<Rightarrow> int \<Rightarrow> int" where
  "days_from_civil y m d =
     (let y' = y - (if m \<le> 2 then 1 else 0);
          era = y' div 400;
          yoe = y' mod 400;
          doy = (153 * (if m > 2 then m - 3 else m + 9) + 2) div 5 + d - 1;
          doe = yoe * 365 + yoe div 4 - yoe div 100 + doy
      in era * 146097 + doe - 719468)"

definition getFullYear :: "jsdate \<Rightarrow> int" where
  "getFullYear t = fst (civil_from_days (Day t))"

text \<open>\<open>getMonth\<close> counts months from 0 (January).\<close>

definition getMonth :: "jsdate \<Rightarrow> int" where
  "getMonth t = fst (snd (civil_from_days (Day t))) - 1"

definition getDate :: "jsdate \<Rightarrow> int" where
  "getDate t = snd (snd (civil_from_days (Day t)))"

text \<open>\<open>getDay\<close> is the weekday, 0 for Sunday; 1970-01-01 was a Thursday.\<close>

definition getDay :: "jsdate \<Rightarrow> int" where
  "getDay t = (Day t + 4) mod 7"

text \<open>
  \<open>setDate(dt)\<close> moves a date to day \<open>dt\<close> of its year and month and keeps the
  time of day; a \<open>dt\<close> outside the month rolls over into the neighbouring months,
  because the day number is linear in the day of month.
\<close>

definition setDate :: "jsdate \<Rightarrow> int \<Rightarrow> jsdate" where
  "setDate t dt =
     days_from_civil (getFullYear t) (getMonth t + 1) dt * msPerDay + TimeWithinDay t"

text \<open>
  The constructor \<open>new Date(year, monthIndex, day, hours, minutes)\<close>, for a month index
  in \<open>0..11\<close>; it is named \<open>mkDate\<close> here.
\<close>

definition mkDate :: "int \<Rightarrow> int \<Rightarrow> int \<Rightarrow> int \<Rightarrow> int \<Rightarrow> jsdate" where
  "mkDate y mi d h mn = days_from_civil y (mi + 1) d * msPerDay + (h * 60 + mn) * 60000"

text \<open>
  \<open>isSameDay\<close> of date-fns compares the two dates' starts of day (local midnight).
\<close>

definition startOfDay :: "jsdate \<Rightarrow> jsdate" where
  "startOfDay t = Day t * msPerDay"

definition isSameDay :: "jsdate \<Rightarrow> jsdate \<Rightarrow> bool" where
  "isSameDay a b = (startOfDay a = startOfDay b)"

text \<open>\<open>format(day, "EEEE")\<close> of date-fns is the English name of the weekday.\<close>

definition weekdayNames :: "string list" where
  "weekdayNames = [''Sunday'', ''Monday'', ''Tuesday'', ''Wednesday'', ''Thursday'',
     ''Friday'', ''Saturday'']"

definition format_EEEE :: "jsdate \<Rightarrow> string" where
  "format_EEEE t = weekdayNames ! nat (getDay t)"

subsection \<open>Strings\<close>

text \<open>
  Characters are bytes, so the white space that \<open>trim\<close> and the conversion to a number
  strip is the ASCII part of JavaScript's white space: tab, line feed, vertical tab, form
  feed, carriage return and space.
\<close>

definition isWhiteSpace :: "char \<Rightarrow> bool" where
  "isWhiteSpace c = (c \<in> set [CHR 0x09, CHR 0x0A, CHR 0x0B, CHR 0x0C, CHR 0x0D, CHR '' ''])"

definition trim :: "string \<Rightarrow> string" where
  "trim s = rev (dropWhile isWhiteSpace (rev (dropWhile isWhiteSpace s)))"

text \<open>\<open>s.split(":")\<close>: the fields between the colons; there is always at least one.\<close>

fun split_colon :: "string \<Rightarrow> string list" where
  "split_colon [] = [[]]"
| "split_colon (c # cs) =
     (if c = CHR '':'' then [] # split_colon cs
      else (case split_colon cs of
              [] \<Rightarrow> [[c]]
            | f # fs \<Rightarrow> (c # f) # fs))"

text \<open>
  \<open>Number(s)\<close> on a string: white space around the literal is ignored, the empty string
  is \<open>0\<close>, an optionally signed run of decimal digits is the double nearest to that
  integer, and \<open>Infinity\<close> is spelled out. The other numeric literals (with a
  fraction or an exponent, and the \<open>0x\<close>, \<open>0o\<close> and \<open>0b\<close> forms) do not
  denote the minutes or hours of a clock time and are not distinguished from the strings
  that are not numeric: all of them are \<open>NaN\<close> here.
\<close>

definition digit_val :: "char \<Rightarrow> int option" where
  "digit_val c =
     (if CHR ''0'' \<le> c \<and> c \<le> CHR ''9'' then Some (int (of_char c) - 48) else None)"

fun digits_val :: "int \<Rightarrow> string \<Rightarrow> int option" where
  "digits_val acc [] = Some acc"
| "digits_val acc (c # cs) =
     (case digit_val c of
        None \<Rightarrow> None
      | Some v \<Rightarrow> digits_val (10 * acc + v) cs)"

definition unsigned_literal :: "string \<Rightarrow> jsnum" where
  "unsigned_literal s =
     (if s = [] then NaN
      else if s = ''Infinity'' then PosInf
      else (case digits_val 0 s of None \<Rightarrow> NaN | Some n \<Rightarrow> double_of_int n))"

definition Number_str :: "string \<Rightarrow> jsnum" where
  "Number_str s =
     (case trim s of
        [] \<Rightarrow> Num 0
      | c # cs \<Rightarrow>
          if c = CHR ''+'' then unsigned_literal cs
          else if c = CHR ''-'' then js_neg (unsigned_literal cs)
          else unsigned_literal (c # cs))"

section \<open>The event model\<close>

text \<open>
  The \<open>Event\<close> interface of \<open>home.tsx\<close> and of the monthly calendar. Optional
  fields are options. The recurrence type is kept as the string it is at run time, so
  that a value outside the five declared ones can be stored (events are read back from
  local storage unchecked). The field \<open>id\<close> is named \<open>id_ev\<close> and the field
  \<open>type\<close> is named \<open>rtype\<close>.
\<close>

record recurrence =
  rtype :: string
  days :: "string list option"
  interval :: "jsnum option"
  endDate :: "jsdate option"

record event =
  id_ev :: string
  title :: string
  date :: jsdate
  startTime :: string
  endTime :: string
  description :: "string option"
  color :: "string option"
  recurrence :: "recurrence option"

section \<open>The monthly calendar\<close>

subsection \<open>Which events occur on a day\<close>

text \<open>
  The predicate that \<open>getEventsForDay\<close> filters with, in the zone \<open>z\<close> of the
  browser. The \<open>switch\<close> is a chain of comparisons of the type string, in the order
  of its cases.
\<close>

definition occursOn :: "zone \<Rightarrow> event \<Rightarrow> jsdate \<Rightarrow> bool" where
  "occursOn z ev day =
     (case recurrence ev of
        None \<Rightarrow> isSameDay (date ev) day
      | Some r \<Rightarrow>
          if rtype r = ''none'' then isSameDay (date ev) day
          else
            let eventDate = date ev in
            if rtype r = ''daily'' then True
            else if rtype r = ''weekly'' then
              (case days r of
                 None \<Rightarrow> isSameDay (date ev) day
               | Some ds \<Rightarrow>
                   if length ds > 0 then
                     (let dayName = format_EEEE day in dayName \<in> set ds)
                   else isSameDay (date ev) day)
            else if rtype r = ''monthly'' then getDate day = getDate eventDate
            else if rtype r = ''custom'' then
              (case interval r of
                 None \<Rightarrow> False
               | Some n \<Rightarrow>
                   if truthy n \<and> js_gt n (Num 0) then
                     (let diffInDays =
                            Math_round_div (getTime z day - getTime z eventDate) msPerDay;
                          diffInWeeks = Math_floor_div diffInDays 7
                      in js_rem diffInWeeks n = Num 0)
                   else False)
            else isSameDay (date ev) day)"

definition getEventsForDay :: "zone \<Rightarrow> event list \<Rightarrow> jsdate \<Rightarrow> event list" where
  "getEventsForDay z eventsToUse day = filter (\<lambda>event. occursOn z event day) eventsToUse"

subsection \<open>Adding, replacing and dropping events in the self-managed calendar\<close>

text \<open>
  The component state that the handlers read and write. \<open>handleAddEvent\<close> takes the
  reading of the clock, as a string, that becomes the id of an event without one.
\<close>

record calendar_state =
  localEvents :: "event list"
  selectedDate :: "jsdate option"
  isEventFormOpen :: bool
  selectedEvent :: "event option"
  isEditMode :: bool

definition eventsToUse :: "event list \<Rightarrow> calendar_state \<Rightarrow> event list" where
  "eventsToUse events st = (if length events > 0 then events else localEvents st)"

definition handleAddEvent :: "string \<Rightarrow> calendar_state \<Rightarrow> event \<Rightarrow> calendar_state" where
  "handleAddEvent now st eventData =
     (case (isEditMode st, selectedEvent st) of
        (True, Some sel) \<Rightarrow>
          st\<lparr>localEvents :=
                map (\<lambda>e. if id_ev e = id_ev sel then eventData else e) (localEvents st),
             isEventFormOpen := False\<rparr>
      | _ \<Rightarrow>
          (let newEvent =
                 eventData\<lparr>id_ev := (if id_ev eventData \<noteq> [] then id_ev eventData else now)\<rparr>
           in st\<lparr>localEvents := localEvents st @ [newEvent], isEventFormOpen := False\<rparr>))"

text \<open>
  The \<open>onDrop\<close> handler of a day cell: \<open>events\<close> are the events given by the host,
  \<open>onDragEvent\<close> says whether the host gave a drag handler, \<open>dropDate\<close> is the date
  of the cell and \<open>eventId\<close> the id carried by the drag. With a host handler the drop is
  passed on; without one the calendar handles it on its own state.
\<close>

datatype drop_result = HostHandler string jsdate | Internal calendar_state

definition onDrop ::
  "event list \<Rightarrow> bool \<Rightarrow> string \<Rightarrow> calendar_state \<Rightarrow> jsdate \<Rightarrow> string \<Rightarrow> drop_result" where
  "onDrop events onDragEvent now st dropDate eventId =
     (if onDragEvent then HostHandler eventId dropDate
      else (case find (\<lambda>e. id_ev e = eventId) (eventsToUse events st) of
              None \<Rightarrow> Internal st
            | Some event \<Rightarrow>
                (let updatedEvent = event\<lparr>date := dropDate\<rparr>
                 in Internal (handleAddEvent now st updatedEvent))))"

section \<open>The home page\<close>

subsection \<open>Clock times\<close>

text \<open>
  \<open>timeToMinutes\<close> splits at the colons, converts every field to a number and adds
  the first two. With fewer than two fields the minutes are \<open>undefined\<close> and the sum is
  \<open>NaN\<close>. Nothing is checked and nothing is thrown.
\<close>

definition timeToMinutes :: "string \<Rightarrow> jsnum" where
  "timeToMinutes time =
     (case map Number_str (split_colon time) of
        hours # minutes # _ \<Rightarrow> js_add (js_mul hours (Num 60)) minutes
      | _ \<Rightarrow> NaN)"

subsection \<open>Conflicts\<close>

text \<open>The test both conflict checks apply to a candidate and an existing event.\<close>

definition timesOverlap :: "event \<Rightarrow> event \<Rightarrow> bool" where
  "timesOverlap event e =
     (let eventStart = timeToMinutes (startTime event);
          eventEnd = timeToMinutes (endTime event);
          existingStart = timeToMinutes (startTime e);
          existingEnd = timeToMinutes (endTime e)
      in js_lt eventStart existingEnd \<and> js_gt eventEnd existingStart)"

text \<open>The drag path: the dragged event against the events on the target date.\<close>

definition checkForConflicts :: "event list \<Rightarrow> event \<Rightarrow> jsdate \<Rightarrow> bool" where
  "checkForConflicts events event targetDate =
     (let eventsOnTargetDate =
            filter (\<lambda>e.
              if id_ev e = id_ev event then False
              else (let eventDate = date e
                    in getFullYear eventDate = getFullYear targetDate \<and>
                       getMonth eventDate = getMonth targetDate \<and>
                       getDate eventDate = getDate targetDate)) events
      in list_ex (\<lambda>e. timesOverlap event e) eventsOnTargetDate)"

text \<open>
  The save path: the form's event against the events on its own date. The event itself
  is skipped only when an existing event is edited.
\<close>

definition checkForEventConflicts :: "event list \<Rightarrow> bool \<Rightarrow> event \<Rightarrow> bool" where
  "checkForEventConflicts events isNewEvent eventData =
     (let eventsOnSameDate =
            filter (\<lambda>e.
              if \<not> isNewEvent \<and> id_ev e = id_ev eventData then False
              else (let eventDate = date e; newEventDate = date eventData
                    in getFullYear eventDate = getFullYear newEventDate \<and>
                       getMonth eventDate = getMonth newEventDate \<and>
                       getDate eventDate = getDate newEventDate)) events
      in list_ex (\<lambda>e. timesOverlap eventData e) eventsOnSameDate)"

subsection \<open>Moving an event to another day\<close>

definition updateEventDate ::
  "zone \<Rightarrow> event list \<Rightarrow> string \<Rightarrow> jsdate \<Rightarrow> event list" where
  "updateEventDate z events eventId newDate =
     map (\<lambda>event.
       if id_ev event = eventId then
         (let diffTime = getTime z newDate - getTime z (date event);
              diffDays = Math_ceil_div diffTime msPerDay;
              newEventDate = setDate (date event) (getDate (date event) + diffDays)
          in event\<lparr>date := newEventDate\<rparr>)
       else event) events"

section \<open>The event form\<close>

text \<open>
  The form's \<open>EventData\<close>. Its fields carry the suffix \<open>_f\<close>. The date is an option
  because the form tests whether there is one.
\<close>

record EventData =
  id_f :: string
  title_f :: string
  date_f :: "jsdate option"
  startTime_f :: string
  endTime_f :: string
  description_f :: string
  recurrence_f :: recurrence
  color_f :: string

record validation =
  valid :: bool
  message :: "string option"

text \<open>
  A string is falsy when it is empty, a number when it is \<open>0\<close> or \<open>NaN\<close>, a missing
  field always. Two strings are compared in dictionary order.
\<close>

definition validateForm :: "EventData \<Rightarrow> validation" where
  "validateForm event =
     (if trim (title_f event) = [] then
        \<lparr>valid = False, message = Some ''Event title is required''\<rparr>
      else if date_f event = None then
        \<lparr>valid = False, message = Some ''Event date is required''\<rparr>
      else if startTime_f event = [] then
        \<lparr>valid = False, message = Some ''Start time is required''\<rparr>
      else if endTime_f event = [] then
        \<lparr>valid = False, message = Some ''End time is required''\<rparr>
      else if startTime_f event \<ge> endTime_f event then
        \<lparr>valid = False, message = Some ''End time must be after start time''\<rparr>
      else if rtype (recurrence_f event) = ''weekly'' \<and>
              (case days (recurrence_f event) of None \<Rightarrow> True | Some ds \<Rightarrow> length ds = 0) then
        \<lparr>valid = False,
         message = Some ''Please select at least one day for weekly recurrence''\<rparr>
      else if rtype (recurrence_f event) = ''custom'' \<and>
              (case interval (recurrence_f event) of
                 None \<Rightarrow> True
               | Some n \<Rightarrow> \<not> truthy n \<or> js_lt n (Num 1)) then
        \<lparr>valid = False, message = Some ''Custom recurrence interval must be at least 1''\<rparr>
      else \<lparr>valid = True, message = None\<rparr>)"

text \<open>
  What a click on Save does: an alert with the message of the failed validation, or the
  conflict warning (the conflict flag is the constant \<open>false\<close>), or the call of
  \<open>onSave\<close> with the form's event, followed by \<open>onClose\<close>.
\<close>

datatype save_result = Alert "string option" | ConflictWarning | Saved EventData

definition handleSave :: "EventData \<Rightarrow> save_result" where
  "handleSave event =
     (let validation = validateForm event in
      if \<not> valid validation then Alert (message validation)
      else
        (let hasConflict = False in
         if hasConflict then ConflictWarning else Saved event))"

section \<open>The specification's vocabulary\<close>

text \<open>
  Two dates are on the same calendar day when they have the same year, month and day of
  month in local time.
\<close>

definition sameCalendarDay :: "jsdate \<Rightarrow> jsdate \<Rightarrow> bool" where
  "sameCalendarDay a b =
     (getFullYear a = getFullYear b \<and> getMonth a = getMonth b \<and> getDate a = getDate b)"

text \<open>The signed number of whole days from one date to another, ignoring the time of day.\<close>

definition dayDelta :: "jsdate \<Rightarrow> jsdate \<Rightarrow> int" where
  "dayDelta a b = Day b - Day a"

text \<open>
  The conflict detector as the specification words it: some existing event on the
  candidate's calendar day, other than the excluded one, whose half-open time range
  overlaps the candidate's.
\<close>

definition hasConflict :: "event \<Rightarrow> event list \<Rightarrow> string option \<Rightarrow> bool" where
  "hasConflict candidate existingEvents excludeId =
     (\<exists>e \<in> set existingEvents.
        sameCalendarDay (date e) (date candidate) \<and>
        Some (id_ev e) \<noteq> excludeId \<and>
        js_lt (timeToMinutes (startTime candidate)) (timeToMinutes (endTime e)) \<and>
        js_gt (timeToMinutes (endTime candidate)) (timeToMinutes (startTime e)))"

text \<open>
  The validation rules of the form in the order the specification lists them, each with
  its message, and the message of the first rule that fails.
\<close>

definition validation_rules :: "((EventData \<Rightarrow> bool) \<times> string) list" where
  "validation_rules =
     [(\<lambda>ev. trim (title_f ev) = [], ''Event title is required''),
      (\<lambda>ev. date_f ev = None, ''Event date is required''),
      (\<lambda>ev. startTime_f ev = [], ''Start time is required''),
      (\<lambda>ev. endTime_f ev = [], ''End time is required''),
      (\<lambda>ev. startTime_f ev \<ge> endTime_f ev, ''End time must be after start time''),
      (\<lambda>ev. rtype (recurrence_f ev) = ''weekly'' \<and>
             (days (recurrence_f ev) = None \<or> days (recurrence_f ev) = Some []),
       ''Please select at least one day for weekly recurrence''),
      (\<lambda>ev. rtype (recurrence_f ev) = ''custom'' \<and>
             (case interval (recurrence_f ev) of
                None \<Rightarrow> True
              | Some NaN \<Rightarrow> True
              | Some (Num n) \<Rightarrow> n < 1
              | Some PosInf \<Rightarrow> False
              | Some NegInf \<Rightarrow> True),
       ''Custom recurrence interval must be at least 1'')]"

definition first_failing_rule :: "EventData \<Rightarrow> string option" where
  "first_failing_rule ev = map_option snd (find (\<lambda>r. fst r ev) validation_rules)"

text \<open>
  A decimal integer as it is written: a non-empty run of decimal digits, and its value.
\<close>

definition isDigit :: "char \<Rightarrow> bool" where
  "isDigit c = (CHR ''0'' \<le> c \<and> c \<le> CHR ''9'')"

definition isDecimal :: "string \<Rightarrow> bool" where
  "isDecimal s = (s \<noteq> [] \<and> list_all isDigit s)"

definition decimal_value :: "string \<Rightarrow> int" where
  "decimal_value s = foldl (\<lambda>a c. 10 * a + (int (of_char c) - 48)) 0 s"

subsection \<open>Example data\<close>

definition mk_rule :: "string \<Rightarrow> string list option \<Rightarrow> jsnum option \<Rightarrow> recurrence" where
  "mk_rule t ds n = \<lparr>rtype = t, days = ds, interval = n, endDate = None\<rparr>"

definition mk_event ::
  "string \<Rightarrow> jsdate \<Rightarrow> string \<Rightarrow> string \<Rightarrow> recurrence option \<Rightarrow> event" where
  "mk_event i d s e r =
     \<lparr>id_ev = i, title = ''Event'', date = d, startTime = s, endTime = e,
      description = None, color = None, recurrence = r\<rparr>"

definition mk_form ::
  "string \<Rightarrow> jsdate option \<Rightarrow> string \<Rightarrow> string \<Rightarrow> recurrence \<Rightarrow> EventData" where
  "mk_form t d s e r =
     \<lparr>id_f = [], title_f = t, date_f = d, startTime_f = s, endTime_f = e,
      description_f = [], recurrence_f = r, color_f = ''blue''\<rparr>"

text \<open>
  A zone without clock changes, and the zone of New York in 2026: four hours behind UTC
  from 8 March, 03:00, until 1 November, 02:00, on the local clock, five hours otherwise.
\<close>

definition fixed_zone :: "int \<Rightarrow> zone" where
  "fixed_zone c = (\<lambda>t. c)"

definition new_york_2026 :: zone where
  "new_york_2026 t =
     (if mkDate 2026 2 8 3 0 \<le> t \<and> t < mkDate 2026 10 1 2 0
      then - 4 * 3600000 else - 5 * 3600000)"

definition mk_state :: "event list \<Rightarrow> event option \<Rightarrow> bool \<Rightarrow> calendar_state" where
  "mk_state evs sel edit =
     \<lparr>localEvents = evs, selectedDate = None, isEventFormOpen = False,
      selectedEvent = sel, isEditMode = edit\<rparr>"

section \<open>Properties\<close>

subsection \<open>Rounding\<close>

text \<open>
  The three whole-number quotients are the rounding functions applied to the exact
  quotient.
\<close>

lemma Math_round_div_is_round:
  assumes "0 < d"
  shows "Math_round_div n d = round (real_of_int n / real_of_int d)"
proof -
  have "real_of_int n / real_of_int d + 1 / 2 = real_of_int (2 * n + d) / real_of_int (2 * d)"
    using assms by (simp add: field_simps)
  then have "round (real_of_int n / real_of_int d)
               = \<lfloor>real_of_int (2 * n + d) / real_of_int (2 * d)\<rfloor>"
    by (simp add: round_def)
  also have "\<dots> = (2 * n + d) div (2 * d)"
    by (rule floor_divide_of_int_eq)
  finally show ?thesis by (simp add: Math_round_div_def)
qed

lemma Math_ceil_div_is_ceiling:
  "Math_ceil_div n d = \<lceil>real_of_int n / real_of_int d\<rceil>"
proof -
  have "\<lceil>real_of_int n / real_of_int d\<rceil> = - \<lfloor>real_of_int (- n) / real_of_int d\<rfloor>"
    by (simp add: ceiling_def)
  also have "\<dots> = - ((- n) div d)"
    by (simp only: floor_divide_of_int_eq)
  finally show ?thesis by (simp add: Math_ceil_div_def)
qed

lemma Math_floor_div_is_floor:
  "Math_floor_div n d = \<lfloor>real_of_int n / real_of_int d\<rfloor>"
  by (simp add: Math_floor_div_def floor_divide_of_int_eq)

subsection \<open>The calendar\<close>

text \<open>
  A day of a 400-year era lies in one of four centuries, there in one of 25 four-year
  cycles, at some day of the cycle. Only the last cycle of the last century and the
  cycles that do not end a century have their 1461st day.
\<close>

lemma doe_decompose:
  assumes "0 \<le> doe" and "doe \<le> (146096::int)"
  obtains cen q4 r4 where "doe = 36524 * cen + 1461 * q4 + r4"
    and "0 \<le> cen" and "cen \<le> 3" and "0 \<le> q4" and "q4 \<le> 24" and "0 \<le> r4" and "r4 \<le> 1460"
    and "q4 = 24 \<Longrightarrow> cen < 3 \<Longrightarrow> r4 \<le> 1459"
proof -
  define cen where "cen = (if doe = 146096 then 3 else doe div 36524)"
  define dc where "dc = doe - 36524 * cen"
  define q4 where "q4 = dc div 1461"
  define r4 where "r4 = dc mod 1461"
  have c: "0 \<le> cen" "cen \<le> 3" using assms unfolding cen_def by auto
  have dc: "0 \<le> dc" "dc \<le> 36524" "cen < 3 \<Longrightarrow> dc \<le> 36523"
    using assms unfolding dc_def cen_def by auto
  have q: "0 \<le> q4" "q4 \<le> 24" using dc unfolding q4_def by auto
  have r: "0 \<le> r4" "r4 \<le> 1460" unfolding r4_def by auto
  have e: "dc = 1461 * q4 + r4" unfolding q4_def r4_def by simp
  have l: "q4 = 24 \<Longrightarrow> cen < 3 \<Longrightarrow> r4 \<le> 1459" using dc e by auto
  show ?thesis using that[of cen q4 r4] c q r e l unfolding dc_def by auto
qed

lemma era_layout:
  assumes "doe = 36524 * cen + 1461 * q4 + r4"
    and "0 \<le> cen" and "cen \<le> 3" and "0 \<le> q4" and "q4 \<le> 24" and "0 \<le> r4" and "r4 \<le> 1460"
    and "q4 = 24 \<Longrightarrow> cen < 3 \<Longrightarrow> r4 \<le> 1459"
  shows "\<exists>yc. 0 \<le> yc \<and> yc \<le> 3 \<and> yoe_of_doe doe = 100 * cen + 4 * q4 + yc \<and>
              doy_of_doe doe = r4 - 365 * yc \<and> 0 \<le> r4 - 365 * yc \<and> r4 - 365 * yc \<le> 365"
proof -
  define e :: int where "e = (if 24 * cen + q4 + r4 \<ge> 1460 then 1 else 0)"
  have a: "doe div 1460 = 25 * cen + q4 + e"
    using assms unfolding e_def by auto
  have bc: "doe div 36524 - doe div 146096 = cen"
  proof (cases "1461 * q4 + r4 = 36524")
    case True
    have "q4 = 24" using True assms(5,7) by linarith
    then have "r4 = 1460" using True by simp
    have "cen = 3" using assms(2,3,8) \<open>q4 = 24\<close> \<open>r4 = 1460\<close> by force
    then have "doe = 146096" using True assms(1) by simp
    then show ?thesis using \<open>cen = 3\<close> by simp
  next
    case False
    then have lt: "1461 * q4 + r4 \<le> 36523" using assms by auto
    have "doe div 36524 = cen" using lt assms by auto
    moreover have "doe div 146096 = 0" using lt assms by auto
    ultimately show ?thesis by simp
  qed
  define yc where "yc = (r4 - e) div 365"
  have n: "doe - doe div 1460 + doe div 36524 - doe div 146096 = 365 * (100 * cen + 4 * q4) + (r4 - e)"
    using a bc assms(1) by simp
  have re: "0 \<le> r4 - e" "r4 - e \<le> 1459" using assms unfolding e_def by auto
  have yc: "0 \<le> yc" "yc \<le> 3" using re unfolding yc_def by auto
  have y: "yoe_of_doe doe = 100 * cen + 4 * q4 + yc"
    unfolding yoe_of_doe_def yc_def using n by simp
  have d4: "(100 * cen + 4 * q4 + yc) div 4 = 25 * cen + q4" using yc by auto
  have d100: "(100 * cen + 4 * q4 + yc) div 100 = cen" using yc assms by auto
  have doy: "doy_of_doe doe = r4 - 365 * yc"
    unfolding doy_of_doe_def Let_def y d4 d100 using assms(1) by simp
  have b: "0 \<le> r4 - 365 * yc" "r4 - 365 * yc \<le> 365"
    using re unfolding yc_def e_def by auto
  show ?thesis using yc y doy b by blast
qed

lemma doe_of_day_range: "0 \<le> doe_of_day z \<and> doe_of_day z \<le> 146096"
  by (simp add: doe_of_day_def) 

lemma yoe_doy_range:
  assumes "0 \<le> doe" and "doe \<le> 146096"
  shows "0 \<le> yoe_of_doe doe \<and> yoe_of_doe doe \<le> 399 \<and>
         0 \<le> doy_of_doe doe \<and> doy_of_doe doe \<le> 365"
proof -
  obtain cen q4 r4 where d: "doe = 36524 * cen + 1461 * q4 + r4"
    "0 \<le> cen" "cen \<le> 3" "0 \<le> q4" "q4 \<le> 24" "0 \<le> r4" "r4 \<le> 1460"
    "q4 = 24 \<Longrightarrow> cen < 3 \<Longrightarrow> r4 \<le> 1459"
    using doe_decompose[OF assms] by metis
  from era_layout[OF d] obtain yc where
    "0 \<le> yc" "yc \<le> 3" "yoe_of_doe doe = 100 * cen + 4 * q4 + yc"
    "doy_of_doe doe = r4 - 365 * yc" "0 \<le> r4 - 365 * yc" "r4 - 365 * yc \<le> 365"
    by blast
  then show ?thesis using d(2-5) by simp
qed

lemma mp_of_doy_range:
  "0 \<le> doy \<Longrightarrow> doy \<le> 365 \<Longrightarrow> 0 \<le> mp_of_doy doy \<and> mp_of_doy doy \<le> 11"
  unfolding mp_of_doy_def by auto

lemma dom_of_doy_range:
  "0 \<le> doy \<Longrightarrow> doy \<le> 365 \<Longrightarrow> 1 \<le> dom_of_doy doy \<and> dom_of_doy doy \<le> 31"
  unfolding dom_of_doy_def mp_of_doy_def by auto

lemma days_from_civil_inverse:
  "days_from_civil (fst (civil_from_days z)) (fst (snd (civil_from_days z)))
     (snd (snd (civil_from_days z))) = z"
proof -
  define doe where "doe = doe_of_day z"
  define doy where "doy = doy_of_doe doe"
  define mp where "mp = mp_of_doy doy"
  define yoe where "yoe = yoe_of_doe doe"
  have r: "0 \<le> doe" "doe \<le> 146096" using doe_of_day_range unfolding doe_def by auto
  have y: "0 \<le> yoe" "yoe \<le> 399" and dy: "0 \<le> doy" "doy \<le> 365"
    using yoe_doy_range[OF r] unfolding yoe_def doy_def by auto
  have m: "0 \<le> mp" "mp \<le> 11" using mp_of_doy_range[OF dy] unfolding mp_def by auto
  have c: "civil_from_days z =
      (yoe + era_of_day z * 400 + (if month_of_mp mp \<le> 2 then 1 else 0), month_of_mp mp,
       doy - (153 * mp + 2) div 5 + 1)"
    unfolding civil_from_days_def Let_def dom_of_doy_def doe_def doy_def mp_def yoe_def by simp
  have mm: "(if month_of_mp mp > 2 then month_of_mp mp - 3 else month_of_mp mp + 9) = mp"
    using m unfolding month_of_mp_def by auto
  have e1: "(yoe + era_of_day z * 400) div 400 = era_of_day z" using y by auto
  have e2: "(yoe + era_of_day z * 400) mod 400 = yoe" using y by auto
  have dd: "doe = yoe * 365 + yoe div 4 - yoe div 100 + doy"
    unfolding doy_def doy_of_doe_def yoe_def Let_def by simp
  have z: "era_of_day z * 146097 + doe_of_day z - 719468 = z"
    unfolding era_of_day_def doe_of_day_def by simp
  show ?thesis
    unfolding c days_from_civil_def Let_def fst_conv snd_conv
    using mm e1 e2 dd z unfolding doe_def by simp
qed

lemma civil_from_days_inj: "civil_from_days a = civil_from_days b \<Longrightarrow> a = b"
  by (metis days_from_civil_inverse)

lemma msPerDay_pos: "0 < msPerDay"
  by (simp add: msPerDay_def)

lemma isSameDay_iff_Day: "isSameDay a b \<longleftrightarrow> Day a = Day b"
  using msPerDay_pos by (simp add: isSameDay_def startOfDay_def)

lemma sameCalendarDay_iff_Day: "sameCalendarDay a b \<longleftrightarrow> Day a = Day b"
proof
  assume "sameCalendarDay a b"
  then have "civil_from_days (Day a) = civil_from_days (Day b)"
    unfolding sameCalendarDay_def getFullYear_def getMonth_def getDate_def
    by (simp add: prod_eq_iff)
  then show "Day a = Day b" by (rule civil_from_days_inj)
next
  assume "Day a = Day b"
  then show "sameCalendarDay a b"
    by (simp add: sameCalendarDay_def getFullYear_def getMonth_def getDate_def)
qed

lemma getDate_range: "1 \<le> getDate t \<and> getDate t \<le> 31"
proof -
  have r: "0 \<le> doe_of_day (Day t)" "doe_of_day (Day t) \<le> 146096"
    using doe_of_day_range by auto
  have "0 \<le> doy_of_doe (doe_of_day (Day t))" "doy_of_doe (doe_of_day (Day t)) \<le> 365"
    using yoe_doy_range[OF r] by auto
  from dom_of_doy_range[OF this] show ?thesis
    by (simp add: getDate_def civil_from_days_def Let_def)
qed

lemma thirty_day_months:
  assumes "getMonth t \<in> {3, 5, 8, 10}"
  shows "getDate t \<le> 30"
proof -
  define doy where "doy = doy_of_doe (doe_of_day (Day t))"
  have r: "0 \<le> doe_of_day (Day t)" "doe_of_day (Day t) \<le> 146096"
    using doe_of_day_range by auto
  have dy: "0 \<le> doy" "doy \<le> 365"
    using yoe_doy_range[OF r] unfolding doy_def by auto
  have m: "0 \<le> mp_of_doy doy" "mp_of_doy doy \<le> 11" using mp_of_doy_range[OF dy] by auto
  have gm: "getMonth t = month_of_mp (mp_of_doy doy) - 1"
    by (simp add: getMonth_def civil_from_days_def Let_def doy_def)
  have gd: "getDate t = dom_of_doy doy"
    by (simp add: getDate_def civil_from_days_def Let_def doy_def)
  have "mp_of_doy doy \<in> {1, 3, 6, 8}"
    using assms m unfolding gm month_of_mp_def by (auto split: if_splits)
  then show ?thesis
    unfolding gd dom_of_doy_def using dy unfolding mp_of_doy_def by auto
qed

subsection \<open>Example dates\<close>

lemma mkDate_examples:
  "mkDate 2024 5 3 0 0 = 1717372800000"
  "mkDate 2024 5 10 0 0 = 1717977600000"
  "mkDate 2024 5 3 15 0 = 1717426800000"
  "mkDate 2024 4 1 0 0 = 1714521600000"
  by (simp_all add: mkDate_def days_from_civil_def msPerDay_def)

lemma Day_examples:
  "Day (mkDate 2024 5 3 0 0) = 19877"
  "Day (mkDate 2024 5 3 15 0) = 19877"
  "Day (mkDate 2024 5 10 0 0) = 19884"
  "Day (mkDate 2024 5 4 0 0) = 19878"
  "Day (mkDate 2024 5 5 0 0) = 19879"
  by (simp_all add: Day_def mkDate_def days_from_civil_def msPerDay_def)

lemma getDate_examples:
  "getDate (mkDate 2024 0 31 0 0) = 31"
  "getDate (mkDate 2024 2 31 0 0) = 31"
  "getDate (mkDate 2024 3 30 0 0) = 30"
  "getMonth (mkDate 2024 3 30 0 0) = 3"
  by code_simp+

lemma format_examples:
  "format_EEEE (mkDate 2024 5 3 0 0) = ''Monday''"
  "format_EEEE (mkDate 2024 5 10 0 0) = ''Monday''"
  by code_simp+

subsection \<open>Daily recurrence\<close>

lemma getEventsForDay_iff:
  "ev \<in> set (getEventsForDay z evs day) \<longleftrightarrow> ev \<in> set evs \<and> occursOn z ev day"
  by (simp add: getEventsForDay_def)

text \<open>
  C6. An event whose recurrence type is \<open>daily\<close> occurs on every day whatsoever, also
  on the days before its anchor date: \<open>occursOn\<close> is true without any condition on
  the day.
\<close>

theorem occursOn_daily:
  assumes "recurrence ev = Some r" and "rtype r = ''daily''"
  shows "occursOn z ev day"
  using assms by (simp add: occursOn_def)

text \<open>A daily event anchored on 3 June 2024 occurs on 1 May 2024.\<close>

theorem occursOn_daily_witness:
  "mkDate 2024 4 1 0 0 < date (mk_event ''1'' (mkDate 2024 5 3 0 0) ''09:00'' ''10:00''
       (Some (mk_rule ''daily'' None None))) \<and>
   occursOn (fixed_zone 0) (mk_event ''1'' (mkDate 2024 5 3 0 0) ''09:00'' ''10:00''
       (Some (mk_rule ''daily'' None None))) (mkDate 2024 4 1 0 0)"
proof -
  have r: "recurrence (mk_event ''1'' (mkDate 2024 5 3 0 0) ''09:00'' ''10:00''
       (Some (mk_rule ''daily'' None None))) = Some (mk_rule ''daily'' None None)"
    by (simp add: mk_event_def)
  have t: "rtype (mk_rule ''daily'' None None) = ''daily''"
    by (simp add: mk_rule_def)
  have "mkDate 2024 4 1 0 0 < mkDate 2024 5 3 0 0"
    by (simp add: mkDate_examples)
  then show ?thesis
    using occursOn_daily [OF r t, where z = "fixed_zone 0" and day = "mkDate 2024 4 1 0 0"]
    by (simp add: mk_event_def)
qed

subsection \<open>Single events\<close>

text \<open>
  C7. \<open>occursOn\<close> is a total function to the truth values, so it never fails. For an
  event whose recurrence is absent, or has the type \<open>none\<close>, or has a type that is none
  of the five known ones, it is true exactly on the days that are the same calendar day as
  the event's date, and false on all others.
\<close>

theorem occursOn_single:
  assumes "recurrence ev = None \<or>
     (\<exists>r. recurrence ev = Some r \<and>
        (rtype r = ''none'' \<or>
         rtype r \<notin> set [''none'', ''daily'', ''weekly'', ''monthly'', ''custom'']))"
  shows "occursOn z ev day \<longleftrightarrow> sameCalendarDay (date ev) day"
  using assms
  by (auto simp add: occursOn_def isSameDay_iff_Day sameCalendarDay_iff_Day)

text \<open>
  An event of 3 June 2024, 15:00: without recurrence it occurs on 3 June; with the type
  \<open>none\<close> it does not occur on 4 June; with the unknown type \<open>yearly\<close> it does
  not occur on 10 June.
\<close>

theorem occursOn_single_witness:
  "occursOn (fixed_zone 0) (mk_event ''1'' (mkDate 2024 5 3 15 0) ''09:00'' ''10:00'' None)
     (mkDate 2024 5 3 0 0) \<and>
   \<not> occursOn (fixed_zone 0) (mk_event ''1'' (mkDate 2024 5 3 15 0) ''09:00'' ''10:00''
         (Some (mk_rule ''none'' None None))) (mkDate 2024 5 4 0 0) \<and>
   \<not> occursOn (fixed_zone 0) (mk_event ''1'' (mkDate 2024 5 3 15 0) ''09:00'' ''10:00''
         (Some (mk_rule ''yearly'' None None))) (mkDate 2024 5 10 0 0)"
  using
    occursOn_single
      [where ev = "mk_event ''1'' (mkDate 2024 5 3 15 0) ''09:00'' ''10:00'' None"
         and z = "fixed_zone 0" and day = "mkDate 2024 5 3 0 0"]
    occursOn_single
      [where ev = "mk_event ''1'' (mkDate 2024 5 3 15 0) ''09:00'' ''10:00''
         (Some (mk_rule ''none'' None None))"
         and z = "fixed_zone 0" and day = "mkDate 2024 5 4 0 0"]
    occursOn_single
      [where ev = "mk_event ''1'' (mkDate 2024 5 3 15 0) ''09:00'' ''10:00''
         (Some (mk_rule ''yearly'' None None))"
         and z = "fixed_zone 0" and day = "mkDate 2024 5 10 0 0"]
  by (simp add: mk_event_def mk_rule_def sameCalendarDay_iff_Day Day_examples)

subsection \<open>Monthly recurrence\<close>

text \<open>
  C8. An event whose recurrence type is \<open>monthly\<close> occurs on a day exactly when the
  day of month of that day equals the day of month of the anchor. Nothing is clamped: an
  event anchored on a 31st occurs on no day of April, June, September or November (the
  months of 30 days), and it occurs on every day that is a 31st.
\<close>

theorem occursOn_monthly:
  assumes "recurrence ev = Some r" and "rtype r = ''monthly''"
  shows "(occursOn z ev day \<longleftrightarrow> getDate day = getDate (date ev)) \<and>
         (getDate (date ev) = 31 \<and> getMonth day \<in> {3, 5, 8, 10} \<longrightarrow> \<not> occursOn z ev day) \<and>
         (getDate (date ev) = 31 \<and> getDate day = 31 \<longrightarrow> occursOn z ev day)"
proof -
  have iff: "occursOn z ev day \<longleftrightarrow> getDate day = getDate (date ev)"
    using assms by (simp add: occursOn_def)
  have "getDate day \<le> 30" if "getMonth day \<in> {3, 5, 8, 10}"
    using that by (rule thirty_day_months)
  then show ?thesis using iff by auto
qed

text \<open>
  A monthly event anchored on 31 January 2024 does not occur on 30 April 2024 and occurs
  on 31 March 2024.
\<close>

theorem occursOn_monthly_witness:
  "\<not> occursOn (fixed_zone 0) (mk_event ''1'' (mkDate 2024 0 31 0 0) ''09:00'' ''10:00''
         (Some (mk_rule ''monthly'' None None))) (mkDate 2024 3 30 0 0) \<and>
   occursOn (fixed_zone 0) (mk_event ''1'' (mkDate 2024 0 31 0 0) ''09:00'' ''10:00''
         (Some (mk_rule ''monthly'' None None))) (mkDate 2024 2 31 0 0)"
  using
    occursOn_monthly
      [where ev = "mk_event ''1'' (mkDate 2024 0 31 0 0) ''09:00'' ''10:00''
         (Some (mk_rule ''monthly'' None None))" and r = "mk_rule ''monthly'' None None"
         and z = "fixed_zone 0" and day = "mkDate 2024 3 30 0 0"]
    occursOn_monthly
      [where ev = "mk_event ''1'' (mkDate 2024 0 31 0 0) ''09:00'' ''10:00''
         (Some (mk_rule ''monthly'' None None))" and r = "mk_rule ''monthly'' None None"
         and z = "fixed_zone 0" and day = "mkDate 2024 2 31 0 0"]
  by (simp add: mk_event_def mk_rule_def getDate_examples)

subsection \<open>Weekly recurrence without days\<close>

text \<open>
  C1, as the specification states it: a weekly event with no days occurs on every day that
  has the weekday of its anchor. The code does not do that. A weekly event with an empty
  list of days, anchored on Monday 3 June 2024, does not occur on Monday 10 June 2024.
\<close>

theorem weekly_without_days_counterexample:
  "rtype (mk_rule ''weekly'' (Some []) None) = ''weekly'' \<and>
   days (mk_rule ''weekly'' (Some []) None) = Some [] \<and>
   format_EEEE (mkDate 2024 5 10 0 0) = format_EEEE (mkDate 2024 5 3 0 0) \<and>
   \<not> occursOn (fixed_zone 0) (mk_event ''1'' (mkDate 2024 5 3 0 0) ''09:00'' ''10:00''
         (Some (mk_rule ''weekly'' (Some []) None))) (mkDate 2024 5 10 0 0)"
  by (simp add: mk_event_def mk_rule_def format_examples occursOn_def isSameDay_iff_Day
      Day_examples)

text \<open>
  C1, amended. A weekly event whose list of days is absent or empty falls back to the
  single occurrence: it occurs exactly on the days that are the same calendar day as its
  anchor date. So it always occurs on its anchor date itself (never on no day at all), and
  on no other day, whatever the weekday.
\<close>

theorem occursOn_weekly_without_days:
  assumes "recurrence ev = Some r" and "rtype r = ''weekly''"
    and "days r = None \<or> days r = Some []"
  shows "(occursOn z ev day \<longleftrightarrow> sameCalendarDay (date ev) day) \<and> occursOn z ev (date ev)"
  using assms
  by (auto simp add: occursOn_def isSameDay_iff_Day sameCalendarDay_iff_Day)

text \<open>
  A weekly event of 3 June 2024, 15:00: with no list of days it occurs on 3 June; with an
  empty list it does not occur on 4 June.
\<close>

theorem occursOn_weekly_without_days_witness:
  "occursOn (fixed_zone 0) (mk_event ''1'' (mkDate 2024 5 3 15 0) ''09:00'' ''10:00''
         (Some (mk_rule ''weekly'' None None))) (mkDate 2024 5 3 0 0) \<and>
   \<not> occursOn (fixed_zone 0) (mk_event ''1'' (mkDate 2024 5 3 15 0) ''09:00'' ''10:00''
         (Some (mk_rule ''weekly'' (Some []) None))) (mkDate 2024 5 4 0 0)"
  using
    occursOn_weekly_without_days
      [where ev = "mk_event ''1'' (mkDate 2024 5 3 15 0) ''09:00'' ''10:00''
         (Some (mk_rule ''weekly'' None None))" and r = "mk_rule ''weekly'' None None"
         and z = "fixed_zone 0" and day = "mkDate 2024 5 3 0 0"]
    occursOn_weekly_without_days
      [where ev = "mk_event ''1'' (mkDate 2024 5 3 15 0) ''09:00'' ''10:00''
         (Some (mk_rule ''weekly'' (Some []) None))" and r = "mk_rule ''weekly'' (Some []) None"
         and z = "fixed_zone 0" and day = "mkDate 2024 5 4 0 0"]
  by (simp add: mk_event_def mk_rule_def sameCalendarDay_iff_Day Day_examples)

subsection \<open>Custom recurrence\<close>

lemma div_add_small: "0 \<le> x \<Longrightarrow> x < b \<Longrightarrow> (q * b + x) div b = (q::int)"
  by (simp add: div_pos_pos_trivial)

lemma js_rem_zero_iff: "0 < n \<Longrightarrow> js_rem a (Num n) = Num 0 \<longleftrightarrow> a mod n = 0"
proof -
  assume n: "0 < n"
  have "js_rem a (Num n) = Num 0 \<longleftrightarrow> a = 0 \<or> \<bar>a\<bar> mod n = 0"
    using n by (simp add: sgn_if)
  also have "\<dots> \<longleftrightarrow> n dvd \<bar>a\<bar>" by (auto simp add: dvd_eq_mod_eq_0)
  also have "\<dots> \<longleftrightarrow> a mod n = 0" by (simp add: mod_eq_0_iff_dvd)
  finally show ?thesis .
qed

lemma Math_round_div_aligned:
  assumes "TimeWithinDay day = 0" and "2 * TimeWithinDay anchor \<le> msPerDay"
  shows "Math_round_div (day - anchor) msPerDay = Day day - Day anchor"
proof -
  define r where "r = TimeWithinDay anchor"
  have d: "day = msPerDay * Day day"
    using assms(1) by (simp add: TimeWithinDay_def Day_def mod_eq_0_iff_dvd)
  have a: "anchor = msPerDay * Day anchor + r"
    by (simp add: r_def TimeWithinDay_def Day_def)
  have r: "0 \<le> r" "2 * r \<le> msPerDay"
    using assms(2) msPerDay_pos by (simp_all add: r_def TimeWithinDay_def)
  have eq: "2 * (day - anchor) + msPerDay
          = (Day day - Day anchor) * (2 * msPerDay) + (msPerDay - 2 * r)"
    by (subst d, subst a) (simp add: algebra_simps)
  have "0 \<le> msPerDay - 2 * r" "msPerDay - 2 * r < 2 * msPerDay"
    using r msPerDay_pos by auto
  then show ?thesis
    unfolding Math_round_div_def eq by (rule div_add_small)
qed

lemma getTime_diff_same_offset: "z a = z b \<Longrightarrow> getTime z a - getTime z b = a - b"
  by (simp add: getTime_def)

text \<open>
  What the custom case computes when the zone has the same offset at the anchor and at the
  day, the anchor's time of day is not after noon and the day is given at local midnight,
  as the cells of the month grid are: the whole weeks between the two calendar days, and
  whether the interval divides them. Without a positive interval the event never occurs.
\<close>

lemma occursOn_custom:
  assumes "recurrence ev = Some r" and "rtype r = ''custom''"
  shows "(interval r = None \<or> interval r = Some NaN \<or> interval r = Some NegInf \<or>
          (\<exists>n. interval r = Some (Num n) \<and> n \<le> 0)
            \<longrightarrow> \<not> occursOn z ev day) \<and>
         (\<forall>n. interval r = Some (Num n) \<and> 1 \<le> n \<and> z day = z (date ev) \<and>
              TimeWithinDay day = 0 \<and> 2 * TimeWithinDay (date ev) \<le> msPerDay
            \<longrightarrow> (occursOn z ev day \<longleftrightarrow> (dayDelta (date ev) day div 7) mod n = 0))"
  using assms
  by (auto simp add: occursOn_def Let_def getTime_diff_same_offset Math_round_div_aligned
      Math_floor_div_def js_rem_zero_iff dayDelta_def simp del: js_rem.simps)

text \<open>
  C3. For a custom event the specification asks for the whole weeks between the calendar
  days of the anchor and of the day, so that an event with interval 2 occurs on its anchor
  date. The code rounds the difference of the two time values instead, and the anchor keeps
  the time of day at which the event was created. In a zone without clock changes, an
  event created at 15:00 on 3 June 2024 with interval 2 is on the same calendar day as the
  cell of 3 June, yet it does not occur there: the difference is -15 hours, which rounds
  to -1 day, that is week -1. It occurs on 10 June, one week after its anchor date.
\<close>

theorem custom_afternoon_anchor_missed:
  "dayDelta (mkDate 2024 5 3 15 0) (mkDate 2024 5 3 0 0) div 7 mod 2 = 0 \<and>
   \<not> occursOn (fixed_zone c) (mk_event ''1'' (mkDate 2024 5 3 15 0) ''15:00'' ''16:00''
         (Some (mk_rule ''custom'' None (Some (Num 2))))) (mkDate 2024 5 3 0 0) \<and>
   dayDelta (mkDate 2024 5 3 15 0) (mkDate 2024 5 10 0 0) div 7 mod 2 = 1 \<and>
   occursOn (fixed_zone c) (mk_event ''1'' (mkDate 2024 5 3 15 0) ''15:00'' ''16:00''
         (Some (mk_rule ''custom'' None (Some (Num 2))))) (mkDate 2024 5 10 0 0)"
  by (simp add: mk_event_def mk_rule_def occursOn_def dayDelta_def Day_examples mkDate_examples
      getTime_def fixed_zone_def Math_round_div_def Math_floor_div_def msPerDay_def Day_def)

subsection \<open>Moving an event to another day\<close>

lemma Math_ceil_div_midnight:
  assumes "TimeWithinDay newDate = 0"
  shows "Math_ceil_div (newDate - d) msPerDay = Day newDate - Day d"
proof -
  define r where "r = TimeWithinDay d"
  have n: "newDate = msPerDay * Day newDate"
    using assms by (simp add: TimeWithinDay_def Day_def mod_eq_0_iff_dvd)
  have a: "d = msPerDay * Day d + r"
    by (simp add: r_def TimeWithinDay_def Day_def)
  have r: "0 \<le> r" "r < msPerDay"
    using msPerDay_pos by (simp_all add: r_def TimeWithinDay_def)
  have eq: "- (newDate - d) = (Day d - Day newDate) * msPerDay + r"
    by (subst n, subst a) (simp add: algebra_simps)
  have "(- (newDate - d)) div msPerDay = Day d - Day newDate"
    unfolding eq using r by (rule div_add_small)
  then show ?thesis by (simp add: Math_ceil_div_def)
qed

lemma days_from_civil_add: "days_from_civil y m (d + n) = days_from_civil y m d + n"
  by (simp add: days_from_civil_def Let_def)

lemma setDate_shift: "setDate t (getDate t + n) = t + n * msPerDay"
proof -
  have "days_from_civil (getFullYear t) (getMonth t + 1) (getDate t) = Day t"
    using days_from_civil_inverse [of "Day t"]
    by (simp add: getFullYear_def getMonth_def getDate_def)
  then have "setDate t (getDate t + n) = (Day t + n) * msPerDay + TimeWithinDay t"
    by (simp add: setDate_def days_from_civil_add)
  moreover have "t = Day t * msPerDay + TimeWithinDay t"
    by (simp add: Day_def TimeWithinDay_def)
  ultimately show ?thesis by (simp add: algebra_simps)
qed

lemma Day_shift: "Day (t + n * msPerDay) = Day t + n"
  using msPerDay_pos by (simp add: Day_def)

lemma TimeWithinDay_shift: "TimeWithinDay (t + n * msPerDay) = TimeWithinDay t"
  by (simp add: TimeWithinDay_def)

text \<open>
  What the move computes in general: the date goes forward by the rounded-up number of
  days between the two time values, with its time of day.
\<close>

lemma updateEventDate_map:
  "updateEventDate z events eventId newDay =
     map (\<lambda>e. if id_ev e = eventId
               then e\<lparr>date := date e +
                      Math_ceil_div (getTime z newDay - getTime z (date e)) msPerDay * msPerDay\<rparr>
               else e) events"
  by (simp add: updateEventDate_def Let_def setDate_shift)

text \<open>
  Where the move does what the specification asks: when the target is a date at local
  midnight, as the cells of the month grid are, and the zone has the same offset at the
  event's date and at the target. Then the date goes forward by the whole days between the
  two calendar days, lands on the target day and keeps its time of day.
\<close>

lemma updateEventDate_same_offset:
  assumes "TimeWithinDay newDay = 0" and "i < length events"
    and "id_ev (events ! i) = eventId" and "z (date (events ! i)) = z newDay"
  shows "updateEventDate z events eventId newDay ! i =
           (events ! i)\<lparr>date := date (events ! i) +
              dayDelta (date (events ! i)) newDay * msPerDay\<rparr> \<and>
         sameCalendarDay (date (updateEventDate z events eventId newDay ! i)) newDay \<and>
         TimeWithinDay (date (updateEventDate z events eventId newDay ! i)) =
           TimeWithinDay (date (events ! i))"
proof -
  have "getTime z newDay - getTime z (date (events ! i)) = newDay - date (events ! i)"
    using assms(4) by (simp add: getTime_def)
  then show ?thesis
    using assms(1,2,3)
    by (simp add: updateEventDate_map Math_ceil_div_midnight dayDelta_def
        sameCalendarDay_iff_Day Day_shift TimeWithinDay_shift)
qed

lemma november_2026_examples:
  "mkDate 2026 10 1 0 0 = 1793491200000"
  "mkDate 2026 10 4 0 0 = 1793750400000"
  "mkDate 2026 10 5 0 0 = 1793836800000"
  "mkDate 2026 2 8 3 0 = 1772938800000"
  "mkDate 2026 10 1 2 0 = 1793498400000"
  by (simp_all add: mkDate_def days_from_civil_def msPerDay_def)

text \<open>
  C4. A drag should shift the date of the event by the whole days between its calendar
  day and the target day, so that the event lands on the target day with its time of day.
  The code rounds up the difference of the two time values instead, and a day on which the
  clocks are set back has 25 hours. In New York an event of 1 November 2026, 00:00 (made by
  a click on that cell), dragged to the cell of 4 November: the time values are 73 hours
  apart, which rounds up to 4 days, and the event lands on 5 November, not on the target
  day three days after its own.
\<close>

theorem drag_across_clock_change_lands_a_day_late:
  "dayDelta (mkDate 2026 10 1 0 0) (mkDate 2026 10 4 0 0) = 3 \<and>
   getTime new_york_2026 (mkDate 2026 10 4 0 0) - getTime new_york_2026 (mkDate 2026 10 1 0 0)
     = 73 * 3600000 \<and>
   updateEventDate new_york_2026
     [mk_event ''A'' (mkDate 2026 10 1 0 0) ''09:00'' ''10:00'' None] ''A''
     (mkDate 2026 10 4 0 0)
     = [mk_event ''A'' (mkDate 2026 10 5 0 0) ''09:00'' ''10:00'' None] \<and>
   \<not> sameCalendarDay (mkDate 2026 10 5 0 0) (mkDate 2026 10 4 0 0)"
  by (simp add: updateEventDate_map mk_event_def dayDelta_def sameCalendarDay_iff_Day
      getTime_def new_york_2026_def november_2026_examples Math_ceil_div_def Day_def
      msPerDay_def)

text \<open>
  The same happens without any clock change when the target carries a time of day later
  than the event's, which no cell of the grid does: an event of 3 June 2024, 09:00, moved
  to 5 June, 10:00, lands on 6 June.
\<close>

lemma updateEventDate_later_time_of_day:
  "updateEventDate (fixed_zone c)
     [mk_event ''A'' (mkDate 2024 5 3 9 0) ''09:00'' ''10:00'' None] ''A''
     (mkDate 2024 5 5 10 0)
     = [mk_event ''A'' (mkDate 2024 5 6 9 0) ''09:00'' ''10:00'' None]"
  by (simp add: updateEventDate_map mk_event_def getTime_def fixed_zone_def mkDate_def
      days_from_civil_def Math_ceil_div_def msPerDay_def)

subsection \<open>Clock times\<close>

lemma double_of_int_exact: "\<bar>n\<bar> \<le> 2 ^ 53 \<Longrightarrow> double_of_int n = Num n"
  by (simp add: double_of_int_def)

lemma isDigit_facts:
  assumes "isDigit c"
  shows "digit_val c = Some (int (of_char c) - 48)" and "\<not> isWhiteSpace c"
    and "c \<noteq> CHR '':''" and "c \<noteq> CHR ''+''" and "c \<noteq> CHR ''-''"
    and "48 \<le> int (of_char c)" and "c \<noteq> CHR ''I''"
  using assms by (auto simp add: isDigit_def digit_val_def isWhiteSpace_def less_eq_char_def)

lemma digits_val_foldl:
  "list_all isDigit s \<Longrightarrow>
     digits_val acc s = Some (foldl (\<lambda>a c. 10 * a + (int (of_char c) - 48)) acc s)"
  by (induction s arbitrary: acc) (simp_all add: isDigit_facts)

lemma foldl_decimal_nonneg:
  "list_all isDigit s \<Longrightarrow> 0 \<le> acc \<Longrightarrow>
     0 \<le> foldl (\<lambda>a c. 10 * a + (int (of_char c) - 48)) acc s"
proof (induction s arbitrary: acc)
  case Nil
  then show ?case by simp
next
  case (Cons c s)
  then have "0 \<le> 10 * acc + (int (of_char c) - 48)"
    using isDigit_facts(6) [of c] by simp
  with Cons show ?case by simp
qed

lemma decimal_value_nonneg: "isDecimal s \<Longrightarrow> 0 \<le> decimal_value s"
  by (simp add: isDecimal_def decimal_value_def foldl_decimal_nonneg)

lemma trim_decimal:
  assumes "isDecimal s"
  shows "trim s = s"
proof -
  from assms obtain c cs where s: "s = c # cs" and c: "isDigit c"
    by (cases s) (auto simp add: isDecimal_def)
  have l: "isDigit (last s)"
    using assms by (metis isDecimal_def last_in_set list_all_iff)
  have "dropWhile isWhiteSpace s = s"
    using s c by (simp add: isDigit_facts)
  moreover have "dropWhile isWhiteSpace (rev s) = rev s"
    using l assms by (cases "rev s") (auto simp add: isDecimal_def isDigit_facts last_rev hd_rev
        dest: arg_cong [where f = hd])
  ultimately show ?thesis by (simp add: trim_def)
qed

text \<open>A run of decimal digits converts to the double nearest to its value.\<close>

lemma Number_str_decimal:
  assumes "isDecimal s"
  shows "Number_str s = double_of_int (decimal_value s)"
proof -
  from assms obtain c cs where s: "s = c # cs" and c: "isDigit c"
    by (cases s) (auto simp add: isDecimal_def)
  have "s \<noteq> ''Infinity''"
    using s c isDigit_facts(7) by auto
  then have "unsigned_literal s = double_of_int (decimal_value s)"
    using assms by (simp add: unsigned_literal_def isDecimal_def digits_val_foldl decimal_value_def)
  then show ?thesis
    using trim_decimal [OF assms] s c by (simp add: Number_str_def isDigit_facts)
qed

lemma split_colon_no_colon: "CHR '':'' \<notin> set t \<Longrightarrow> split_colon t = [t]"
  by (induction t) auto

lemma split_colon_two_fields:
  "CHR '':'' \<notin> set hs \<Longrightarrow> CHR '':'' \<notin> set ms \<Longrightarrow>
     split_colon (hs @ CHR '':'' # ms) = [hs, ms]"
  by (induction hs) (auto simp add: split_colon_no_colon)

lemma isDecimal_no_colon: "isDecimal s \<Longrightarrow> CHR '':'' \<notin> set s"
  using isDigit_facts(3) by (auto simp add: isDecimal_def list_all_iff)

lemma timeToMinutes_two_fields:
  assumes "isDecimal hs" and "isDecimal ms"
  shows "timeToMinutes (hs @ CHR '':'' # ms) =
           js_add (js_mul (double_of_int (decimal_value hs)) (Num 60))
             (double_of_int (decimal_value ms))"
  using assms
  by (simp add: timeToMinutes_def split_colon_two_fields isDecimal_no_colon Number_str_decimal)

text \<open>
  C5, amended. For two runs of decimal digits joined by a colon, \<open>timeToMinutes\<close>
  returns 60 times the first number plus the second, as long as that is at most
  \<open>2 ^ 53\<close>, the size up to which the arithmetic of doubles is exact; with the hours
  at most 23 and the minutes at most 59 this is an integer from 0 to 1439. It never fails:
  a string without a colon gives \<open>NaN\<close>, and no field is checked against a range.
\<close>

theorem timeToMinutes_decimal_fields:
  "(isDecimal hs \<and> isDecimal ms \<and> decimal_value hs * 60 + decimal_value ms \<le> 2 ^ 53 \<longrightarrow>
      timeToMinutes (hs @ CHR '':'' # ms) = Num (decimal_value hs * 60 + decimal_value ms)) \<and>
   (isDecimal hs \<and> isDecimal ms \<and> decimal_value hs \<le> 23 \<and> decimal_value ms \<le> 59 \<longrightarrow>
      timeToMinutes (hs @ CHR '':'' # ms) = Num (decimal_value hs * 60 + decimal_value ms) \<and>
      0 \<le> decimal_value hs * 60 + decimal_value ms \<and>
      decimal_value hs * 60 + decimal_value ms \<le> 1439) \<and>
   (CHR '':'' \<notin> set t \<longrightarrow> timeToMinutes t = NaN)"
proof -
  have a: "timeToMinutes (hs @ CHR '':'' # ms) = Num (decimal_value hs * 60 + decimal_value ms)"
    if d: "isDecimal hs" "isDecimal ms"
      and le: "decimal_value hs * 60 + decimal_value ms \<le> 2 ^ 53"
  proof -
    have h: "0 \<le> decimal_value hs" and m: "0 \<le> decimal_value ms"
      using d by (simp_all add: decimal_value_nonneg)
    have "\<bar>decimal_value hs\<bar> \<le> 2 ^ 53" "\<bar>decimal_value ms\<bar> \<le> 2 ^ 53"
      "\<bar>decimal_value hs * 60\<bar> \<le> 2 ^ 53"
      "\<bar>decimal_value hs * 60 + decimal_value ms\<bar> \<le> 2 ^ 53"
      using h m le by simp_all
    then show ?thesis
      using d by (simp add: timeToMinutes_two_fields double_of_int_exact)
  qed
  have b: "decimal_value hs * 60 + decimal_value ms \<le> 1439"
    if "decimal_value hs \<le> 23" and "decimal_value ms \<le> 59"
    using that by simp
  have c: "0 \<le> decimal_value hs * 60 + decimal_value ms"
    if "isDecimal hs" and "isDecimal ms"
    using that decimal_value_nonneg [of hs] decimal_value_nonneg [of ms] by simp
  have e: "timeToMinutes t = NaN" if "CHR '':'' \<notin> set t"
    using that by (simp add: timeToMinutes_def split_colon_no_colon)
  have "decimal_value hs * 60 + decimal_value ms \<le> 2 ^ 53"
    if "decimal_value hs \<le> 23" and "decimal_value ms \<le> 59"
    using b [OF that] by simp
  with a b c e show ?thesis by blast
qed

lemma decimal_examples:
  "isDecimal ''09''" "isDecimal ''05''" "isDecimal ''23''" "isDecimal ''59''"
  "decimal_value ''09'' = 9" "decimal_value ''05'' = 5" "decimal_value ''23'' = 23"
  "decimal_value ''59'' = 59"
  by code_simp+

text \<open>
  \<open>09:05\<close> is minute 545, \<open>23:59\<close> is minute 1439, \<open>0930\<close> is not a number.
\<close>

theorem timeToMinutes_decimal_fields_witness:
  "timeToMinutes ''09:05'' = Num 545 \<and> timeToMinutes ''23:59'' = Num 1439 \<and>
   timeToMinutes ''0930'' = NaN"
  using timeToMinutes_decimal_fields [where hs = "''09''" and ms = "''05''" and t = "''0930''"]
    timeToMinutes_decimal_fields [where hs = "''23''" and ms = "''59''" and t = "''0930''"]
  by (simp add: decimal_examples)

text \<open>
  C5, as the specification states it: a string that is not two integers in range makes the
  function fail. The code returns a number all the same: \<open>25:00\<close> gives 1500 and
  \<open>12:75\<close> gives 795.
\<close>

theorem timeToMinutes_out_of_range_counterexample:
  "timeToMinutes ''25:00'' = Num 1500 \<and> timeToMinutes ''12:75'' = Num 795"
  by code_simp

text \<open>
  Beyond \<open>2 ^ 53\<close> the doubles round: the hours \<open>9007199254740993\<close> are read as
  \<open>9007199254740992\<close>, so the result is not 60 times the number written.
\<close>

lemma timeToMinutes_rounds:
  "timeToMinutes ''9007199254740993:00'' = Num 540431955284459520"
  by code_simp

subsection \<open>Conflicts\<close>

lemma timeToMinutes_examples:
  "timeToMinutes ''14:00'' = Num 840"
  "timeToMinutes ''15:00'' = Num 900"
  "timeToMinutes ''14:30'' = Num 870"
  "timeToMinutes ''15:30'' = Num 930"
  by code_simp+

lemma js_lt_irrefl: "\<not> js_lt a a"
  by (cases a) simp_all

lemma checkForConflicts_hasConflict:
  "checkForConflicts events event targetDate =
     hasConflict (event\<lparr>date := targetDate\<rparr>) events (Some (id_ev event))"
  by (auto simp add: checkForConflicts_def hasConflict_def timesOverlap_def Let_def
      list_ex_iff sameCalendarDay_def)

lemma checkForEventConflicts_hasConflict:
  "checkForEventConflicts events isNewEvent eventData =
     hasConflict eventData events (if isNewEvent then None else Some (id_ev eventData))"
  by (auto simp add: checkForEventConflicts_def hasConflict_def timesOverlap_def Let_def
      list_ex_iff sameCalendarDay_def)

lemma hasConflict_touching:
  "timeToMinutes (startTime candidate) = timeToMinutes (endTime e)
     \<Longrightarrow> \<not> hasConflict candidate [e] excludeId"
  by (simp add: hasConflict_def js_lt_irrefl)

lemma hasConflict_ignores_recurrence:
  "hasConflict (candidate\<lparr>recurrence := r\<rparr>)
     (map (\<lambda>e. e\<lparr>recurrence := f e\<rparr>) existingEvents) excludeId =
   hasConflict candidate existingEvents excludeId"
  by (simp add: hasConflict_def)

text \<open>
  C2. Both conflict checks of the home page are the conflict detector of the
  specification: the check of the drag path with the dragged event placed on the target
  date and its own id excluded, the check of the save path with the form's event and its id
  excluded when an existing event is edited, nothing excluded for a new one. They are true
  exactly when some existing event on the candidate's calendar day, other than the excluded
  one, has start and end times with candidate start before existing end and candidate end
  after existing start. A candidate that starts at the minute an existing event ends does
  not conflict with it, and replacing the recurrence rules of the events, recurring or not,
  changes no result: only the events' own dates count.
\<close>

theorem conflict_checks_refine_hasConflict:
  "checkForConflicts events event targetDate =
     hasConflict (event\<lparr>date := targetDate\<rparr>) events (Some (id_ev event)) \<and>
   checkForEventConflicts events isNewEvent eventData =
     hasConflict eventData events (if isNewEvent then None else Some (id_ev eventData)) \<and>
   (timeToMinutes (startTime event) = timeToMinutes (endTime e)
      \<longrightarrow> \<not> checkForConflicts [e] event targetDate \<and>
          \<not> checkForEventConflicts [e] isNewEvent event) \<and>
   checkForConflicts (map (\<lambda>e. e\<lparr>recurrence := f e\<rparr>) events)
       (event\<lparr>recurrence := r\<rparr>) targetDate =
     checkForConflicts events event targetDate \<and>
   checkForEventConflicts (map (\<lambda>e. e\<lparr>recurrence := f e\<rparr>) events) isNewEvent
       (eventData\<lparr>recurrence := r\<rparr>) =
     checkForEventConflicts events isNewEvent eventData"
proof -
  have touch: "\<not> checkForConflicts [e] event targetDate \<and>
               \<not> checkForEventConflicts [e] isNewEvent event"
    if "timeToMinutes (startTime event) = timeToMinutes (endTime e)"
    using that
    by (simp add: checkForConflicts_hasConflict checkForEventConflicts_hasConflict
        hasConflict_touching)
  have drag: "checkForConflicts (map (\<lambda>e. e\<lparr>recurrence := f e\<rparr>) events)
       (event\<lparr>recurrence := r\<rparr>) targetDate = checkForConflicts events event targetDate"
    by (simp add: checkForConflicts_hasConflict hasConflict_def)
  have save: "checkForEventConflicts (map (\<lambda>e. e\<lparr>recurrence := f e\<rparr>) events) isNewEvent
       (eventData\<lparr>recurrence := r\<rparr>) = checkForEventConflicts events isNewEvent eventData"
    by (simp add: checkForEventConflicts_hasConflict hasConflict_def)
  from checkForConflicts_hasConflict checkForEventConflicts_hasConflict touch drag save
  show ?thesis by blast
qed

text \<open>
  Event B of 5 June 2024, 14:00 to 15:00: a new event from 14:30 to 15:30 on that day
  conflicts, one from 15:00 to 15:30 does not, and an event dragged to 10 June does not
  although B recurs daily.
\<close>

theorem conflict_checks_refine_hasConflict_witness:
  "checkForEventConflicts
     [mk_event ''B'' (mkDate 2024 5 5 0 0) ''14:00'' ''15:00'' None] True
     (mk_event [] (mkDate 2024 5 5 0 0) ''14:30'' ''15:30'' None) \<and>
   \<not> checkForEventConflicts
     [mk_event ''B'' (mkDate 2024 5 5 0 0) ''14:00'' ''15:00'' None] True
     (mk_event [] (mkDate 2024 5 5 0 0) ''15:00'' ''15:30'' None) \<and>
   \<not> checkForConflicts
     [mk_event ''B'' (mkDate 2024 5 5 0 0) ''14:00'' ''15:00'' (Some (mk_rule ''daily'' None None))]
     (mk_event ''C'' (mkDate 2024 5 3 0 0) ''14:30'' ''15:30'' None) (mkDate 2024 5 10 0 0)"
  using
    conflict_checks_refine_hasConflict
      [where events = "[mk_event ''B'' (mkDate 2024 5 5 0 0) ''14:00'' ''15:00'' None]"
        and isNewEvent = True
        and eventData = "mk_event [] (mkDate 2024 5 5 0 0) ''14:30'' ''15:30'' None"]
    conflict_checks_refine_hasConflict
      [where events = "[mk_event ''B'' (mkDate 2024 5 5 0 0) ''14:00'' ''15:00'' None]"
        and isNewEvent = True
        and eventData = "mk_event [] (mkDate 2024 5 5 0 0) ''15:00'' ''15:30'' None"]
    conflict_checks_refine_hasConflict
      [where events = "[mk_event ''B'' (mkDate 2024 5 5 0 0) ''14:00'' ''15:00''
              (Some (mk_rule ''daily'' None None))]"
        and event = "mk_event ''C'' (mkDate 2024 5 3 0 0) ''14:30'' ''15:30'' None"
        and targetDate = "mkDate 2024 5 10 0 0"]
  by (simp add: hasConflict_def mk_event_def sameCalendarDay_iff_Day Day_examples
      timeToMinutes_examples)

subsection \<open>The event form\<close>

lemma custom_interval_rule:
  "(case i of None \<Rightarrow> True | Some n \<Rightarrow> \<not> truthy n \<or> js_lt n (Num 1)) =
   (case i of None \<Rightarrow> True | Some NaN \<Rightarrow> True | Some (Num n) \<Rightarrow> n < 1
    | Some PosInf \<Rightarrow> False | Some NegInf \<Rightarrow> True)"
  by (auto split: option.splits jsnum.splits)

lemma weekly_days_rule:
  "(case ds of None \<Rightarrow> True | Some xs \<Rightarrow> length xs = 0) = (ds = None \<or> ds = Some [])"
  by (auto split: option.splits)

lemma validateForm_first_failing:
  "validateForm ev =
     (case first_failing_rule ev of
        None \<Rightarrow> \<lparr>valid = True, message = None\<rparr>
      | Some m \<Rightarrow> \<lparr>valid = False, message = Some m\<rparr>)"
  unfolding validateForm_def first_failing_rule_def validation_rules_def
    custom_interval_rule weekly_days_rule
  by simp

text \<open>
  C9. The form's validation is the ordered list of rules of the specification: empty
  title (nothing but white space), missing date, missing start time, missing end time,
  start time not before end time, weekly recurrence without a selected day, custom
  recurrence without an interval of at least 1. Its result is invalid with the message of
  the first rule that fails, and valid when none fails. Saving hands the event on exactly
  when no rule fails; otherwise it shows the message of the first failing rule and saves
  nothing.
\<close>

theorem form_validation_order:
  "validateForm ev =
     (case first_failing_rule ev of
        None \<Rightarrow> \<lparr>valid = True, message = None\<rparr>
      | Some m \<Rightarrow> \<lparr>valid = False, message = Some m\<rparr>) \<and>
   handleSave ev =
     (case first_failing_rule ev of None \<Rightarrow> Saved ev | Some m \<Rightarrow> Alert (Some m)) \<and>
   (first_failing_rule ev = None \<longleftrightarrow> (\<forall>r \<in> set validation_rules. \<not> fst r ev))"
proof -
  have s: "handleSave ev =
     (case first_failing_rule ev of None \<Rightarrow> Saved ev | Some m \<Rightarrow> Alert (Some m))"
    unfolding handleSave_def validateForm_first_failing
    by (simp split: option.splits)
  have n: "first_failing_rule ev = None \<longleftrightarrow> (\<forall>r \<in> set validation_rules. \<not> fst r ev)"
    unfolding first_failing_rule_def by (auto simp add: find_None_iff)
  from validateForm_first_failing s n show ?thesis by blast
qed

lemma string_order_examples:
  "\<not> (''09:00'' \<ge> ''10:00'')" "''10:00'' \<ge> ''10:00''" "''9:00'' \<ge> ''10:00''"
  by code_simp+

text \<open>
  A complete form is saved. A form with a blank title, no date and no start time reports
  the title. A custom rule with interval 0 is reported only once the times are in order.
\<close>

theorem form_validation_order_witness:
  "handleSave (mk_form ''Standup'' (Some (mkDate 2024 5 3 0 0)) ''09:00'' ''10:00''
       (mk_rule ''none'' None None)) =
     Saved (mk_form ''Standup'' (Some (mkDate 2024 5 3 0 0)) ''09:00'' ''10:00''
       (mk_rule ''none'' None None)) \<and>
   handleSave (mk_form ''  '' None [] ''10:00'' (mk_rule ''weekly'' (Some []) None)) =
     Alert (Some ''Event title is required'') \<and>
   handleSave (mk_form ''Standup'' (Some (mkDate 2024 5 3 0 0)) ''10:00'' ''10:00''
       (mk_rule ''custom'' None (Some (Num 0)))) =
     Alert (Some ''End time must be after start time'') \<and>
   handleSave (mk_form ''Standup'' (Some (mkDate 2024 5 3 0 0)) ''09:00'' ''10:00''
       (mk_rule ''custom'' None (Some (Num 0)))) =
     Alert (Some ''Custom recurrence interval must be at least 1'')"
  using
    form_validation_order [of "mk_form ''Standup'' (Some (mkDate 2024 5 3 0 0)) ''09:00''
       ''10:00'' (mk_rule ''none'' None None)"]
    form_validation_order [of "mk_form ''  '' None [] ''10:00''
       (mk_rule ''weekly'' (Some []) None)"]
    form_validation_order [of "mk_form ''Standup'' (Some (mkDate 2024 5 3 0 0)) ''10:00''
       ''10:00'' (mk_rule ''custom'' None (Some (Num 0)))"]
    form_validation_order [of "mk_form ''Standup'' (Some (mkDate 2024 5 3 0 0)) ''09:00''
       ''10:00'' (mk_rule ''custom'' None (Some (Num 0)))"]
  by (simp add: first_failing_rule_def validation_rules_def mk_form_def mk_rule_def trim_def
      isWhiteSpace_def string_order_examples)

subsection \<open>Dropping an event in the self-managed calendar\<close>

text \<open>
  Without a host handler the dragged event is copied with the date of the cell as its
  date, and the copy is handed to \<open>handleAddEvent\<close>. No conflict check is made.
\<close>

lemma onDrop_internal:
  assumes "find (\<lambda>e. id_ev e = eventId) (eventsToUse events st) = Some event"
  shows "onDrop events False now st dropDate eventId =
           Internal (handleAddEvent now st (event\<lparr>date := dropDate\<rparr>))"
  using assms by (simp add: onDrop_def)

text \<open>
  C10. Without a host handler a drop should replace the date of the dragged event by the
  date of the cell and commit that update. \<open>handleAddEvent\<close> commits it as an
  update only in edit mode; otherwise it appends. In the initial state (no edit mode, no
  selected event) the event A of 3 June 2024, dropped on 5 June, is still in the list with
  its old date, followed by a copy with the same id dated 5 June at midnight, and a search
  by id finds the old one.
\<close>

theorem self_managed_drop_duplicates:
  "onDrop [] False ''1717600000000''
     (mk_state [mk_event ''A'' (mkDate 2024 5 3 15 0) ''15:00'' ''16:00'' None] None False)
     (mkDate 2024 5 5 0 0) ''A'' =
   Internal (mk_state
     [mk_event ''A'' (mkDate 2024 5 3 15 0) ''15:00'' ''16:00'' None,
      mk_event ''A'' (mkDate 2024 5 5 0 0) ''15:00'' ''16:00'' None] None False) \<and>
   find (\<lambda>e. id_ev e = ''A'')
     [mk_event ''A'' (mkDate 2024 5 3 15 0) ''15:00'' ''16:00'' None,
      mk_event ''A'' (mkDate 2024 5 5 0 0) ''15:00'' ''16:00'' None] =
   Some (mk_event ''A'' (mkDate 2024 5 3 15 0) ''15:00'' ''16:00'' None)"
  by (simp add: onDrop_def eventsToUse_def handleAddEvent_def mk_state_def mk_event_def)

end
